theory Spec2Isabelle
  imports Main "HOL-Library.Multiset" "HOL-Library.Char_ord" "HOL-Library.List_Lexorder"
begin

section \<open>The file server of internal/myhttp/fileserver.go\<close>

text \<open>
  The server is a Go program whose handlers act on the outside world only through calls
  into the standard library and into the logging and template packages. The embedding
  keeps each handler as a function that takes the state before the call and returns the
  state after it, together with the way the Go function ended (a normal return or a
  panic). The state holds the regular files written so far and the trace of every
  external call in program order. What the operating system and the HTTP library answer
  (does the open succeed, is the entry a directory, does the form hold a file part) is an
  input of the model, since the source only branches on those answers.

  Strings are byte strings, as Go's are.
\<close>

subsection \<open>Library functions the handlers call\<close>

text \<open>
  \<open>strings.Split(s, "/")\<close> and \<open>strings.Join(elems, "/")\<close>, with the one-byte
  separator the source passes. \<open>Split\<close> never returns an empty slice.
\<close>

fun Split :: "string \<Rightarrow> char \<Rightarrow> string list" where
  "Split [] sep = [[]]"
| "Split (c # cs) sep =
     (if c = sep then [] # Split cs sep
      else (case Split cs sep of
              [] \<Rightarrow> [[c]]
            | seg # segs \<Rightarrow> (c # seg) # segs))"

fun Join :: "string list \<Rightarrow> string \<Rightarrow> string" where
  "Join [] sep = []"
| "Join [e] sep = e"
| "Join (e # es) sep = e @ sep @ Join es sep"

text \<open>
  \<open>path.Clean\<close>. The Go function reads the path at index \<open>r\<close> and writes into a
  buffer of which the first \<open>w\<close> bytes count; \<open>dotdot\<close> is the index below which a
  \<open>..\<close> element must not remove anything. Here the unread part of the path is the
  first list, the buffer (cut at \<open>w\<close>) the second.
\<close>

function backtrack :: "string \<Rightarrow> nat \<Rightarrow> nat \<Rightarrow> nat" where
  "backtrack buf dotdot w =
     (if dotdot < w \<and> buf ! w \<noteq> CHR ''/'' then backtrack buf dotdot (w - 1) else w)"
  by pat_completeness auto
termination
  by (relation "measure (\<lambda>(buf, dotdot, w). w)") auto

declare backtrack.simps [simp del]

datatype element = Slash | Dot | DotDot | Elem

definition element_at :: "char \<Rightarrow> string \<Rightarrow> element" where
  "element_at c rest =
     (if c = CHR ''/'' then Slash
      else if c = CHR ''.'' \<and> (case rest of [] \<Rightarrow> True | d # _ \<Rightarrow> d = CHR ''/'') then Dot
      else if c = CHR ''.'' \<and> (case rest of [] \<Rightarrow> False | d # rest' \<Rightarrow>
                 d = CHR ''.'' \<and> (case rest' of [] \<Rightarrow> True | e # _ \<Rightarrow> e = CHR ''/''))
        then DotDot
      else Elem)"

function clean_loop :: "bool \<Rightarrow> string \<Rightarrow> string \<Rightarrow> nat \<Rightarrow> string" where
  "clean_loop rooted [] out dotdot = out"
| "clean_loop rooted (c # rest) out dotdot =
     (case element_at c rest of
        Slash \<Rightarrow> clean_loop rooted rest out dotdot
      | Dot \<Rightarrow> clean_loop rooted rest out dotdot
      | DotDot \<Rightarrow>
          (if dotdot < length out
           then clean_loop rooted (tl rest)
                  (take (backtrack out dotdot (length out - 1)) out) dotdot
           else if rooted then clean_loop rooted (tl rest) out dotdot
           else clean_loop rooted (tl rest)
                  ((if out = [] then out else out @ ''/'') @ ''..'')
                  (length ((if out = [] then out else out @ ''/'') @ ''..'')))
      | Elem \<Rightarrow>
          clean_loop rooted (dropWhile (\<lambda>x. x \<noteq> CHR ''/'') rest)
            ((if (if rooted then length out = 1 else length out = 0) then out else out @ ''/'')
               @ c # takeWhile (\<lambda>x. x \<noteq> CHR ''/'') rest)
            dotdot)"
  by pat_completeness auto
termination
  by (relation "measure (\<lambda>(rooted, path, out, dotdot). length path)")
     (simp_all add: length_dropWhile_le less_Suc_eq_le)

definition Clean :: "string \<Rightarrow> string" where
  "Clean path =
     (if path = [] then ''.''
      else (let rooted = (hd path = CHR ''/'');
                out = (if rooted then clean_loop rooted (tl path) ''/'' 1
                       else clean_loop rooted path [] 0)
            in if out = [] then ''.'' else out))"

text \<open>
  \<open>path.Join\<close>: the elements from the first non-empty one on, joined by slashes and
  cleaned; the empty string when every element is empty.
\<close>

fun path_Join :: "string list \<Rightarrow> string" where
  "path_Join [] = []"
| "path_Join (e # es) = (if e = [] then path_Join es else Clean (Join (e # es) ''/''))"

text \<open>
  \<open>url.PathEscape\<close> and \<open>url.PathUnescape\<close> (the path-segment mode of the
  library's \<open>escape\<close> and \<open>unescape\<close>). A byte is written as itself when
  \<open>shouldEscape\<close> says no, and as \<open>%\<close> with two upper-case hexadecimal digits
  otherwise. Decoding fails on a \<open>%\<close> that two hexadecimal digits do not follow.
\<close>

definition in_range :: "char \<Rightarrow> char \<Rightarrow> char \<Rightarrow> bool" where
  "in_range lo hi c = (lo \<le> c \<and> c \<le> hi)"

definition alphanum :: "char \<Rightarrow> bool" where
  "alphanum c =
     (in_range CHR ''a'' CHR ''z'' c \<or> in_range CHR ''A'' CHR ''Z'' c \<or> in_range CHR ''0'' CHR ''9'' c)"

definition shouldEscape :: "char \<Rightarrow> bool" where
  "shouldEscape c =
     (if alphanum c then False
      else if c \<in> set ''-_.~'' then False
      else if c \<in> set ''$&+,/:;=?@'' then c \<in> set ''/;,?''
      else True)"

definition upperhex :: string where
  "upperhex = ''0123456789ABCDEF''"

fun escape :: "string \<Rightarrow> string" where
  "escape [] = []"
| "escape (c # cs) =
     (if shouldEscape c
      then CHR ''%'' # upperhex ! (of_char c div 16) # upperhex ! (of_char c mod 16) # escape cs
      else c # escape cs)"

definition PathEscape :: "string \<Rightarrow> string" where
  "PathEscape s = escape s"






text \<open>
  \<open>strings.ToLower\<close> maps every letter of Unicode and is a parameter of the model (a
  field of the platform below). On a string of ASCII bytes it replaces \<open>A\<close> to \<open>Z\<close>
  by \<open>a\<close> to \<open>z\<close> and keeps every other byte; that restriction is written out here
  for the directories of the examples, whose names are ASCII.
\<close>

definition toLower_ASCII :: "char \<Rightarrow> char" where
  "toLower_ASCII c =
     (if in_range CHR ''A'' CHR ''Z'' c then char_of (of_char c + (32::nat)) else c)"

definition ToLower_ASCII :: "string \<Rightarrow> string" where
  "ToLower_ASCII s = map toLower_ASCII s"

text \<open>
  \<open>cleanPath\<close> of \<open>net/http\<close>: the canonical form the request multiplexer compares a
  request path with.
\<close>

definition cleanPath :: "string \<Rightarrow> string" where
  "cleanPath p =
     (if p = [] then ''/''
      else (let p1 = (if hd p \<noteq> CHR ''/'' then CHR ''/'' # p else p);
                np = Clean p1
            in if last p1 = CHR ''/'' \<and> np \<noteq> ''/''
               then (if length p1 = length np + 1 \<and> take (length np) p1 = np then p1
                     else np @ ''/'')
               else np))"

subsection \<open>Data of the server\<close>

record item =
  URI :: string
  Name :: string

record directory =
  Path :: string
  Content :: "item list"

record FileServer =
  Port :: int
  Webroot :: string
  SSL :: bool
  SelfSigned :: bool
  MyKey :: string
  MyCert :: string
  BasicAuth :: string

text \<open>
  What \<open>req.FormFile("file")\<close> hands back when the form holds the part: the name in
  the part's header and the bytes of the part. \<open>ioutil.ReadAll\<close> on the part returns
  all the bytes, or, when \<open>read_err\<close> is \<open>Some n\<close>, the first \<open>n\<close> bytes and an
  error.
\<close>

record form_part =
  Filename :: string
  payload :: string
  read_err :: "nat option"

text \<open>
  The request: the fields the handlers and the multiplexer read, the answer of
  \<open>req.BasicAuth()\<close> (the user name and password of a well-formed Authorization header,
  \<open>None\<close> when the header is missing or malformed) and the answer of
  \<open>req.FormFile("file")\<close> (the error text, or the part). \<open>URL_Path\<close> is the decoded
  path \<open>req.URL.Path\<close>, \<open>RequestURI\<close> the target as the request line has it.
\<close>

record Request =
  Method :: string
  URL_Path :: string
  RequestURI :: string
  RemoteAddr :: string
  Proto :: string
  ProtoMajor :: int
  ProtoMinor :: int
  BasicAuth_result :: "(string \<times> string) option"
  FormFile_result :: "string + form_part"

subsection \<open>The operating system and the libraries as inputs\<close>

datatype os_error = ErrNotExist | ErrPermission | ErrOther string

record FileInfo =
  fi_Name :: string
  fi_IsDir :: bool

text \<open>
  An open \<open>os.File\<close>: whether \<open>Stat\<close> calls it a directory (\<open>None\<close> when \<open>Stat\<close>
  fails and hands back a nil \<open>FileInfo\<close>), what \<open>Readdir(-1)\<close> lists (\<open>None\<close> on an
  error) and the bytes \<open>io.Copy\<close> delivers.
\<close>

record os_File =
  Stat_IsDir :: "bool option"
  Readdir :: "FileInfo list option"
  contents :: string

text \<open>
  The platform: the answer of \<open>os.Open\<close> for a path; whether \<open>os.Create\<close> and
  \<open>ioutil.WriteFile\<close> fail on a path; what a failing \<open>ioutil.WriteFile\<close> leaves
  behind (\<open>None\<close> when it fails to open the file, which then is as before; \<open>Some n\<close>
  when it has truncated the file and fails with the first \<open>n\<close> bytes of the data
  written); the function \<open>strings.ToLower\<close>; and the routine behind \<open>sort.Slice\<close>,
  of which the library promises the postcondition \<open>sort_Slice_post\<close> below and no more.
\<close>

record platform =
  os_Open :: "string \<Rightarrow> os_error + os_File"
  os_Create_fails :: "string \<Rightarrow> bool"
  WriteFile_fails :: "string \<Rightarrow> bool"
  WriteFile_written :: "string \<Rightarrow> nat option"
  strings_ToLower :: "string \<Rightarrow> string"
  sort_Slice :: "(item \<Rightarrow> item \<Rightarrow> bool) \<Rightarrow> item list \<Rightarrow> item list"

definition sort_Slice_post :: "('a \<Rightarrow> 'a \<Rightarrow> bool) \<Rightarrow> 'a list \<Rightarrow> 'a list \<Rightarrow> bool" where
  "sort_Slice_post lt xs ys = (mset ys = mset xs \<and> sorted_wrt (\<lambda>a b. \<not> lt b a) ys)"

subsection \<open>Effects\<close>

text \<open>
  One event for each call that leaves the handler: the system calls, what is written to
  the response, the access log (\<open>mylog.LogRequest\<close>, \<open>mylog.LogMessage\<close>), the process
  log (\<open>log.Println\<close>, \<open>log.Printf\<close>) and the execution of a template, named as the
  source names it for \<open>myhtml.GetTemplate\<close>, on its data. An event holds the call
  and its arguments (\<open>http.Error(w, msg, code)\<close>, \<open>http.Redirect(w, req, url, code)\<close>);
  what the HTTP library then puts on the wire is not modelled. \<open>RedirectHandler\<close>
  is the answer of the multiplexer itself: \<open>http.RedirectHandler\<close> on the URL that has
  the given path and the query of the request, with the given code. Closing a file is
  not recorded.
\<close>

datatype event =
    OsOpen string
  | OsCreate string
  | WriteFile string string
  | HeaderSet string string
  | WriteHeader nat
  | HttpError string nat
  | Redirect string nat
  | RedirectHandler string nat
  | LogRequest string string string string string
  | LogMessage string
  | LogPrint string
  | Execute string "directory option"
  | Copy string

record state =
  files :: "string \<rightharpoonup> string"
  trace :: "event list"

datatype ending = Returned | Panicked string

definition emit :: "event \<Rightarrow> state \<Rightarrow> state" where
  "emit e st = st\<lparr>trace := trace st @ [e]\<rparr>"

definition nil_dereference :: string where
  "nil_dereference = ''runtime error: invalid memory address or nil pointer dereference''"

subsection \<open>The handlers\<close>

definition handle404 :: "Request \<Rightarrow> state \<Rightarrow> state" where
  "handle404 req st =
     (let st1 = emit (LogRequest (RemoteAddr req) (Method req) (URL_Path req) (Proto req) ''404'') st;
          st2 = emit (LogMessage ''404:   File not found'') st1
      in emit (Execute ''404'' None) st2)"

definition handle500 :: "Request \<Rightarrow> state \<Rightarrow> state" where
  "handle500 req st =
     (let st1 = emit (LogRequest (RemoteAddr req) (Method req) (URL_Path req) (Proto req) ''500'') st;
          st2 = emit (LogMessage ''500:   No permission to access the file'') st1
      in emit (Execute ''500'' None) st2)"

definition sendFile :: "os_File \<Rightarrow> state \<Rightarrow> state" where
  "sendFile file st = emit (Copy (contents file)) st"

text \<open>The loop of \<open>processDir\<close> over the entries read, appending one item for each.\<close>

fun range_fis :: "string \<Rightarrow> FileInfo list \<Rightarrow> item list \<Rightarrow> item list" where
  "range_fis relpath [] items = items"
| "range_fis relpath (fi # fis) items =
     range_fis relpath fis
       (items @ [\<lparr>URI = PathEscape (path_Join [relpath, fi_Name fi]),
                  Name = (if fi_IsDir fi then fi_Name fi @ ''/'' else fi_Name fi)\<rparr>])"

text \<open>The comparison handed to \<open>sort.Slice\<close>.\<close>

definition less_lower :: "platform \<Rightarrow> item \<Rightarrow> item \<Rightarrow> bool" where
  "less_lower P a b = (strings_ToLower P (Name a) < strings_ToLower P (Name b))"

definition processDir :: "platform \<Rightarrow> Request \<Rightarrow> os_File \<Rightarrow> string \<Rightarrow> state \<Rightarrow> state" where
  "processDir P req file relpath st =
     (case Readdir file of
        None \<Rightarrow> handle404 req st
      | Some fis \<Rightarrow>
          (let items = sort_Slice P (less_lower P) (range_fis relpath fis [])
           in emit (Execute ''display'' (Some \<lparr>Path = relpath, Content = items\<rparr>)) st))"

definition handler :: "FileServer \<Rightarrow> platform \<Rightarrow> Request \<Rightarrow> state \<Rightarrow> ending \<times> state" where
  "handler fs P req st =
     (let upath = URL_Path req in
      if upath = ''/favicon.ico'' then (Returned, st)
      else
        (let opened = Webroot fs @ Clean upath;
             st1 = emit (OsOpen opened) st
         in case os_Open P opened of
              Inl ErrNotExist \<Rightarrow> (Returned, handle404 req st1)
            | Inl ErrPermission \<Rightarrow> (Returned, handle500 req st1)
            | Inl (ErrOther err) \<Rightarrow> (Returned, emit (LogPrint err) st1)
            | Inr file \<Rightarrow>
                (let st2 = emit (LogRequest (RemoteAddr req) (Method req) (URL_Path req)
                                   (Proto req) ''200'') st1
                 in case Stat_IsDir file of
                      None \<Rightarrow> (Panicked nil_dereference, st2)
                    | Some True \<Rightarrow> (Returned, processDir P req file upath st2)
                    | Some False \<Rightarrow> (Returned, sendFile file st2))))"

text \<open>
  \<open>upload\<close>. When \<open>FormFile\<close> fails the file it returns is a nil interface, and the
  \<open>defer file.Close()\<close> that follows the logging panics on it. Otherwise the three
  steps run one after the other; a failing step logs, calls \<open>handle500\<close> and goes on.
  A failed \<open>os.Create\<close> leaves the files as they were. \<open>ioutil.WriteFile\<close> opens
  the file truncating it, writes and closes: when it fails the file is as before (the
  open failed) or holds the bytes written up to the failure.
\<close>

definition upload :: "FileServer \<Rightarrow> platform \<Rightarrow> Request \<Rightarrow> state \<Rightarrow> ending \<times> state" where
  "upload fs P req st =
     (case FormFile_result req of
        Inl err \<Rightarrow> (Panicked nil_dereference, emit (LogPrint (''Error retrieving the file: '' @ err)) st)
      | Inr part \<Rightarrow>
          (let upath = URL_Path req;
               targetpath = butlast (Split upath CHR ''/'');
               target = Join targetpath ''/'';
               savepath = Webroot fs @ target @ ''/'' @ Filename part;
               st1 = emit (OsCreate savepath) st;
               st2 = (if os_Create_fails P savepath
                      then handle500 req (emit (LogPrint ''ERROR:   Not able to create file on disk'') st1)
                      else st1\<lparr>files := (files st1)(savepath \<mapsto> [])\<rparr>);
               fileBytes = (case read_err part of None \<Rightarrow> payload part | Some n \<Rightarrow> take n (payload part));
               st3 = (if read_err part = None then st2
                      else handle500 req (emit (LogPrint ''ERROR:   Not able to read file from request'') st2));
               st4 = emit (WriteFile savepath fileBytes) st3;
               st5 = (if WriteFile_fails P savepath
                      then handle500 req
                             (emit (LogPrint ''ERROR:   Not able to write file to disk'')
                               (case WriteFile_written P savepath of
                                  None \<Rightarrow> st4
                                | Some n \<Rightarrow> st4\<lparr>files := (files st4)(savepath \<mapsto> take n fileBytes)\<rparr>))
                      else st4\<lparr>files := (files st4)(savepath \<mapsto> fileBytes)\<rparr>);
               st6 = emit (LogRequest (RemoteAddr req) (Method req) (URL_Path req) (Proto req) ''200'') st5
           in (Returned, emit (Redirect target 303) st6)))"

text \<open>
  A deferred function that calls \<open>recover()\<close>: when the body panicked the panic stops
  there, the function runs on the panic's value and the enclosing function returns.
\<close>

definition deferred_recover ::
  "(string \<Rightarrow> state \<Rightarrow> state) \<Rightarrow> ending \<times> state \<Rightarrow> ending \<times> state" where
  "deferred_recover h r =
     (case r of
        (Panicked err, st) \<Rightarrow> (Returned, h err st)
      | (Returned, st) \<Rightarrow> (Returned, st))"

definition dispatch :: "FileServer \<Rightarrow> platform \<Rightarrow> Request \<Rightarrow> state \<Rightarrow> ending \<times> state" where
  "dispatch fs P req st =
     (if Method req = ''GET'' then handler fs P req st
      else if Method req = ''POST'' then upload fs P req st
      else (Returned, st))"

definition ServeHTTP :: "FileServer \<Rightarrow> platform \<Rightarrow> Request \<Rightarrow> state \<Rightarrow> ending \<times> state" where
  "ServeHTTP fs P req st =
     deferred_recover (\<lambda>err. emit (HttpError err 500)) (dispatch fs P req st)"

definition challenge :: string where
  "challenge = ''Basic realm='' @ [CHR 0x22] @ ''Restricted'' @ [CHR 0x22]"

definition basicAuth :: "FileServer \<Rightarrow> platform \<Rightarrow> Request \<Rightarrow> state \<Rightarrow> ending \<times> state" where
  "basicAuth fs P req st =
     (let st1 = emit (HeaderSet ''WWW-Authenticate'' challenge) st in
      case BasicAuth_result req of
        None \<Rightarrow> (Returned, emit (HttpError ''Not authorized'' 401) st1)
      | Some (username, password) \<Rightarrow>
          if username \<noteq> ''gopher'' \<or> password \<noteq> BasicAuth fs
          then (Returned, emit (HttpError ''Not authorized'' 401) st1)
          else ServeHTTP fs P req st1)"

text \<open>
  \<open>Start\<close> registers one handler under the pattern \<open>/\<close> on \<open>http.DefaultServeMux\<close>
  (\<open>authRouter\<close> the wrapper, \<open>router\<close> the server itself) and serves with an
  \<open>http.Server\<close> that has no handler of its own, so every request goes through the
  server's \<open>serverHandler\<close> and the multiplexer before it reaches what was registered.
  The logging and the listener of \<open>Start\<close> are outside the model.

  The multiplexer, with \<open>/\<close> its only pattern. The request target \<open>*\<close> gets a 400
  (the server answers \<open>OPTIONS *\<close> itself). A CONNECT request is matched as it is:
  the pattern matches a path that begins with a slash, anything else gets the library's
  404. For every other method the path is compared with its canonical form; when they
  differ the answer is a redirect to the canonical path with status 301 and the
  registered handler does not run. The comparison is on the decoded path, as in the
  releases of the library of this program's time; later releases compare the path in
  its escaped form, which for a request line without percent-escapes is the same.
\<close>

definition ProtoAtLeast :: "Request \<Rightarrow> int \<Rightarrow> int \<Rightarrow> bool" where
  "ProtoAtLeast req major minor =
     (major < ProtoMajor req \<or> ProtoMajor req = major \<and> minor \<le> ProtoMinor req)"

definition NotFoundHandler :: "Request \<Rightarrow> state \<Rightarrow> ending \<times> state" where
  "NotFoundHandler req st = (Returned, emit (HttpError ''404 page not found'' 404) st)"

definition mux_handler ::
  "(Request \<Rightarrow> state \<Rightarrow> ending \<times> state) \<Rightarrow> string \<Rightarrow> Request \<Rightarrow> state \<Rightarrow> ending \<times> state" where
  "mux_handler registered path =
     (case path of
        [] \<Rightarrow> NotFoundHandler
      | c # cs \<Rightarrow> if c = CHR ''/'' then registered else NotFoundHandler)"

definition ServeMux ::
  "(Request \<Rightarrow> state \<Rightarrow> ending \<times> state) \<Rightarrow> Request \<Rightarrow> state \<Rightarrow> ending \<times> state" where
  "ServeMux registered req st =
     (if RequestURI req = ''*''
      then (Returned,
            emit (WriteHeader 400)
              (if ProtoAtLeast req 1 1 then emit (HeaderSet ''Connection'' ''close'') st else st))
      else if Method req = ''CONNECT'' then mux_handler registered (URL_Path req) req st
      else if cleanPath (URL_Path req) = URL_Path req
        then mux_handler registered (URL_Path req) req st
      else (Returned, emit (RedirectHandler (cleanPath (URL_Path req)) 301) st))"

definition serverHandler ::
  "(Request \<Rightarrow> state \<Rightarrow> ending \<times> state) \<Rightarrow> Request \<Rightarrow> state \<Rightarrow> ending \<times> state" where
  "serverHandler registered req st =
     (if RequestURI req = ''*'' \<and> Method req = ''OPTIONS''
      then (Returned, emit (HeaderSet ''Content-Length'' ''0'') st)
      else ServeMux registered req st)"

definition authRouter :: "FileServer \<Rightarrow> platform \<Rightarrow> Request \<Rightarrow> state \<Rightarrow> ending \<times> state" where
  "authRouter fs = basicAuth fs"

definition router :: "FileServer \<Rightarrow> platform \<Rightarrow> Request \<Rightarrow> state \<Rightarrow> ending \<times> state" where
  "router fs = ServeHTTP fs"

definition Start :: "FileServer \<Rightarrow> platform \<Rightarrow> Request \<Rightarrow> state \<Rightarrow> ending \<times> state" where
  "Start fs P =
     serverHandler (if BasicAuth fs \<noteq> [] then authRouter fs P else router fs P)"

text \<open>
  The requests the multiplexer hands to the registered handler: not the target \<open>*\<close>,
  and a path that begins with a slash (CONNECT) or is in canonical form (other methods).
\<close>

definition handed_on :: "Request \<Rightarrow> bool" where
  "handed_on req =
     (RequestURI req \<noteq> ''*'' \<and>
      (if Method req = ''CONNECT''
       then (case URL_Path req of [] \<Rightarrow> False | c # cs \<Rightarrow> c = CHR ''/'')
       else cleanPath (URL_Path req) = URL_Path req))"

text \<open>The events that write to the response (headers, status or body).\<close>

fun response_event :: "event \<Rightarrow> bool" where
  "response_event (HeaderSet k v) = True"
| "response_event (WriteHeader code) = True"
| "response_event (HttpError msg code) = True"
| "response_event (RedirectHandler path code) = True"
| "response_event (Redirect url code) = True"
| "response_event (Execute name data) = True"
| "response_event (Copy bytes) = True"
| "response_event e = False"

subsection \<open>Where a resolved path lies\<close>

text \<open>The paths handed to \<open>os.Open\<close>, in order.\<close>

fun opened_paths :: "event list \<Rightarrow> string list" where
  "opened_paths [] = []"
| "opened_paths (OsOpen p # es) = p # opened_paths es"
| "opened_paths (e # es) = opened_paths es"

text \<open>
  A path lies within a root, read as text: it is the root followed by a slash and by
  elements none of which is \<open>..\<close>. Links in the file system are outside this reading.
\<close>

definition within_root :: "string \<Rightarrow> string \<Rightarrow> bool" where
  "within_root root p =
     (take (length root) p = root \<and>
      (case drop (length root) p of
         [] \<Rightarrow> False
       | c # rest \<Rightarrow> c = CHR ''/'' \<and> ''..'' \<notin> set (Split rest CHR ''/'')))"

text \<open>The elements \<open>path.Clean\<close> keeps of a rooted path: not empty, without a slash, not \<open>..\<close>.\<close>

definition segs_ok :: "string list \<Rightarrow> bool" where
  "segs_ok segs = list_all (\<lambda>s. s \<noteq> [] \<and> CHR ''/'' \<notin> set s \<and> s \<noteq> ''..'') segs"

subsection \<open>A sorting routine within the library's promise\<close>

text \<open>
  The documentation of \<open>sort.Slice\<close> promises a sorted permutation and states that the
  sort is not guaranteed to be stable. The routine below is one that keeps the promise:
  a pass that compares the elements six places apart and swaps them when out of order,
  followed by insertion sort. It is what \<open>sort.Slice\<close> of the Go releases up to 1.18
  runs on a slice of at most twelve elements; later releases sort such a slice by
  insertion alone. The slice is a list with indexed reads and
  swaps, as in the library's \<open>Less(i, j)\<close> and \<open>Swap(i, j)\<close>.
\<close>

definition swap :: "'a list \<Rightarrow> nat \<Rightarrow> nat \<Rightarrow> 'a list" where
  "swap data i j = data[i := data ! j, j := data ! i]"

definition gap_pass :: "('a \<Rightarrow> 'a \<Rightarrow> bool) \<Rightarrow> 'a list \<Rightarrow> 'a list" where
  "gap_pass lt data =
     fold (\<lambda>i d. if lt (d ! i) (d ! (i - 6)) then swap d i (i - 6) else d) [6..<length data] data"

function sift_left :: "('a \<Rightarrow> 'a \<Rightarrow> bool) \<Rightarrow> 'a list \<Rightarrow> nat \<Rightarrow> 'a list" where
  "sift_left lt data j =
     (if 0 < j \<and> lt (data ! j) (data ! (j - 1)) then sift_left lt (swap data j (j - 1)) (j - 1)
      else data)"
  by pat_completeness auto
termination
  by (relation "measure (\<lambda>(lt, data, j). j)") auto

declare sift_left.simps [simp del]

definition insertionSort :: "('a \<Rightarrow> 'a \<Rightarrow> bool) \<Rightarrow> 'a list \<Rightarrow> 'a list" where
  "insertionSort lt data = fold (\<lambda>i d. sift_left lt d i) [1..<length data] data"

definition gap_insertion_sort :: "('a \<Rightarrow> 'a \<Rightarrow> bool) \<Rightarrow> 'a list \<Rightarrow> 'a list" where
  "gap_insertion_sort lt data = insertionSort lt (gap_pass lt data)"

subsection \<open>A configuration, a platform and requests to run the handlers on\<close>

definition example_fs :: FileServer where
  "example_fs =
     \<lparr>Port = 8000, Webroot = ''/srv/www'', SSL = False, SelfSigned = False,
      MyKey = [], MyCert = [], BasicAuth = ''s3cret''\<rparr>"

definition example_dir :: os_File where
  "example_dir =
     \<lparr>Stat_IsDir = Some True,
      Readdir = Some [\<lparr>fi_Name = ''Banana'', fi_IsDir = False\<rparr>, \<lparr>fi_Name = ''apple'', fi_IsDir = False\<rparr>],
      contents = []\<rparr>"

definition example_open :: "string \<Rightarrow> os_error + os_File" where
  "example_open p =
     (if p = ''/srv/www/locked'' then Inl ErrPermission
      else if p = ''/srv/www/fruit'' then Inr example_dir
      else if p = ''/srv/www/broken'' then Inr \<lparr>Stat_IsDir = None, Readdir = None, contents = []\<rparr>
      else Inl ErrNotExist)"

definition example_platform :: platform where
  "example_platform =
     \<lparr>os_Open = example_open,
      os_Create_fails = (\<lambda>p. p = ''/srv/www/locked/report.txt''),
      WriteFile_fails = (\<lambda>p. False),
      WriteFile_written = (\<lambda>p. None),
      strings_ToLower = ToLower_ASCII,
      sort_Slice = gap_insertion_sort\<rparr>"

definition example_state :: state where
  "example_state = \<lparr>files = [''/srv/www/docs/report.txt'' \<mapsto> ''old''], trace = []\<rparr>"

definition example_get :: "string \<Rightarrow> Request" where
  "example_get upath =
     \<lparr>Method = ''GET'', URL_Path = upath, RequestURI = upath, RemoteAddr = ''10.0.0.7:4711'',
      Proto = ''HTTP/1.1'', ProtoMajor = 1, ProtoMinor = 1,
      BasicAuth_result = None, FormFile_result = Inl ''http: no such file''\<rparr>"

definition example_post :: "string \<Rightarrow> string + form_part \<Rightarrow> Request" where
  "example_post upath part =
     \<lparr>Method = ''POST'', URL_Path = upath, RequestURI = upath, RemoteAddr = ''10.0.0.7:4711'',
      Proto = ''HTTP/1.1'', ProtoMajor = 1, ProtoMinor = 1,
      BasicAuth_result = None, FormFile_result = part\<rparr>"

definition example_part :: form_part where
  "example_part = \<lparr>Filename = ''report.txt'', payload = ''quarterly figures'', read_err = None\<rparr>"

text \<open>
  The entries of \<open>ys\<close> whose lower-cased names are equal stand in the order they have
  in the enumeration \<open>xs\<close>.
\<close>

definition keeps_enumeration_order :: "platform \<Rightarrow> item list \<Rightarrow> item list \<Rightarrow> bool" where
  "keeps_enumeration_order P xs ys =
     list_all (\<lambda>x. filter (\<lambda>y. strings_ToLower P (Name y) = strings_ToLower P (Name x)) ys
                   = filter (\<lambda>y. strings_ToLower P (Name y) = strings_ToLower P (Name x)) xs) xs"

text \<open>A directory of seven files, in the order \<open>Readdir\<close> lists them.\<close>

definition cx_fis :: "FileInfo list" where
  "cx_fis = map (\<lambda>n. \<lparr>fi_Name = n, fi_IsDir = False\<rparr>) [''b'', ''c'', ''d'', ''B'', ''e'', ''f'', ''a'']"

definition cx_dir :: os_File where
  "cx_dir = \<lparr>Stat_IsDir = Some True, Readdir = Some cx_fis, contents = []\<rparr>"

section \<open>Properties\<close>

subsection \<open>Traces of the two error pages\<close>

lemma handle404_trace:
  "handle404 req st =
     st\<lparr>trace := trace st @
        [LogRequest (RemoteAddr req) (Method req) (URL_Path req) (Proto req) ''404'',
         LogMessage ''404:   File not found'', Execute ''404'' None]\<rparr>"
  by (simp add: handle404_def emit_def Let_def)

lemma handle500_trace:
  "handle500 req st =
     st\<lparr>trace := trace st @
        [LogRequest (RemoteAddr req) (Method req) (URL_Path req) (Proto req) ''500'',
         LogMessage ''500:   No permission to access the file'', Execute ''500'' None]\<rparr>"
  by (simp add: handle500_def emit_def Let_def)

subsection \<open>Evaluations used by the examples\<close>

lemma Clean_missing: "Clean ''/missing/file.txt'' = ''/missing/file.txt''"
  by code_simp


lemma Clean_locked: "Clean ''/locked'' = ''/locked''"
  by code_simp

lemma Clean_broken: "Clean ''/broken'' = ''/broken''"
  by code_simp

lemma example_open_missing: "example_open ''/srv/www/missing/file.txt'' = Inl ErrNotExist"
  by (simp add: example_open_def)

lemma example_open_locked: "example_open ''/srv/www/locked'' = Inl ErrPermission"
  by (simp add: example_open_def)

lemma example_open_broken:
  "example_open ''/srv/www/broken'' = Inr \<lparr>Stat_IsDir = None, Readdir = None, contents = []\<rparr>"
  by (simp add: example_open_def)

lemma target_docs: "Join (butlast (Split ''/docs/'' CHR ''/'')) ''/'' = ''/docs''"
  by code_simp

lemma target_locked: "Join (butlast (Split ''/locked/'' CHR ''/'')) ''/'' = ''/locked''"
  by code_simp

subsection \<open>Splitting at slashes and joining again\<close>

lemma Split_not_Nil: "Split s c \<noteq> []"
  by (induction s) (auto split: list.splits)

lemma Join_Cons_Cons: "Join ((x # seg) # segs) sep = x # Join (seg # segs) sep"
  by (cases segs) simp_all

lemma Join_Nil_Cons: "segs \<noteq> [] \<Longrightarrow> Join ([] # segs) sep = sep @ Join segs sep"
  by (cases segs) simp_all

lemma Join_Split: "Join (Split s c) [c] = s"
proof (induction s)
  case Nil
  then show ?case by simp
next
  case (Cons x xs)
  show ?case
  proof (cases "x = c")
    case True
    with Cons show ?thesis by (simp add: Join_Nil_Cons Split_not_Nil)
  next
    case False
    obtain seg segs where s: "Split xs c = seg # segs"
      using Split_not_Nil [of xs c] by (cases "Split xs c") auto
    with Cons False show ?thesis by (simp add: Join_Cons_Cons)
  qed
qed

lemma Join_snoc: "es \<noteq> [] \<Longrightarrow> Join (es @ [e]) sep = Join es sep @ sep @ e"
  by (induction es sep rule: Join.induct) auto

lemma last_Split: "c \<notin> set (last (Split s c))"
  by (induction s) (auto split: list.splits simp: Split_not_Nil)

lemma Split_two: "c \<in> set s \<Longrightarrow> butlast (Split s c) \<noteq> []"
  by (induction s) (auto split: list.splits simp: Split_not_Nil)

lemma strip_last_segment:
  assumes "c \<in> set s"
  shows "s = Join (butlast (Split s c)) [c] @ [c] @ last (Split s c)"
proof -
  have "Split s c = butlast (Split s c) @ [last (Split s c)]"
    by (simp add: Split_not_Nil)
  then have "Join (Split s c) [c] = Join (butlast (Split s c) @ [last (Split s c)]) [c]"
    by simp
  also have "\<dots> = Join (butlast (Split s c)) [c] @ [c] @ last (Split s c)"
    by (rule Join_snoc) (rule Split_two [OF assms])
  finally show ?thesis by (simp add: Join_Split)
qed

subsection \<open>What \<open>path.Clean\<close> makes of a rooted path\<close>

lemma segs_ok_simps [simp]:
  "segs_ok []"
  "segs_ok (segs @ [s]) = (segs_ok segs \<and> s \<noteq> [] \<and> CHR ''/'' \<notin> set s \<and> s \<noteq> ''..'')"
  by (auto simp: segs_ok_def)

lemma Join_Cons: "es \<noteq> [] \<Longrightarrow> Join (e # es) sep = e @ sep @ Join es sep"
  by (cases es) simp_all

lemma Join_eq_Nil: "segs_ok segs \<Longrightarrow> Join segs sep = [] \<longleftrightarrow> segs = []"
  by (induction segs sep rule: Join.induct) (auto simp: segs_ok_def)

lemma backtrack_stop:
  assumes "lo \<le> w" and "d \<le> lo" and "lo = d \<or> buf ! lo = CHR ''/''"
    and "\<forall>i. lo < i \<and> i \<le> w \<longrightarrow> buf ! i \<noteq> CHR ''/''"
  shows "backtrack buf d w = lo"
  using assms
proof (induction w)
  case 0
  then show ?case by (subst backtrack.simps) simp
next
  case (Suc w)
  show ?case
  proof (cases "lo = Suc w")
    case True
    with Suc.prems show ?thesis by (subst backtrack.simps) auto
  next
    case False
    with Suc.prems have "lo \<le> w" by simp
    moreover from Suc.prems False have "d < Suc w" and "buf ! Suc w \<noteq> CHR ''/''" by auto
    ultimately show ?thesis
      using Suc by (subst backtrack.simps) simp
  qed
qed

lemma backtrack_first_segment:
  assumes "CHR ''/'' \<notin> set s" and "s \<noteq> []"
  shows "backtrack (CHR ''/'' # s) (Suc 0) (length s) = Suc 0"
proof -
  from assms obtain a t where Cons: "s = a # t" by (cases s) auto
  show ?thesis
  proof (rule backtrack_stop)
    show "\<forall>i. Suc 0 < i \<and> i \<le> length s \<longrightarrow> (CHR ''/'' # s) ! i \<noteq> CHR ''/''"
    proof (intro allI impI)
      fix i assume i: "Suc 0 < i \<and> i \<le> length s"
      then have "(CHR ''/'' # s) ! i = s ! (i - 1)" by (cases i) auto
      moreover from i have "s ! (i - 1) \<in> set s" by (intro nth_mem) auto
      ultimately show "(CHR ''/'' # s) ! i \<noteq> CHR ''/''" using assms by metis
    qed
  qed (use Cons in auto)
qed

lemma backtrack_later_segment:
  assumes "CHR ''/'' \<notin> set s" and "pre \<noteq> []"
  shows "backtrack (pre @ CHR ''/'' # s) (Suc 0) (length pre + length s) = length pre"
proof (rule backtrack_stop)
  show "\<forall>i. length pre < i \<and> i \<le> length pre + length s \<longrightarrow> (pre @ CHR ''/'' # s) ! i \<noteq> CHR ''/''"
  proof (intro allI impI)
    fix i assume i: "length pre < i \<and> i \<le> length pre + length s"
    then have "(pre @ CHR ''/'' # s) ! i = s ! (i - length pre - 1)"
      by (simp add: nth_append nth_Cons')
    moreover from i have "s ! (i - length pre - 1) \<in> set s" by (intro nth_mem) auto
    ultimately show "(pre @ CHR ''/'' # s) ! i \<noteq> CHR ''/''" using assms by metis
  qed
  show "Suc 0 \<le> length pre" using assms by (cases pre) auto
qed (auto simp: nth_append)

lemma backtrack_last_segment:
  assumes "segs_ok (ss @ [s])"
  shows "take (backtrack (CHR ''/'' # Join (ss @ [s]) ''/'') (Suc 0)
                (length (CHR ''/'' # Join (ss @ [s]) ''/'') - 1))
           (CHR ''/'' # Join (ss @ [s]) ''/'')
         = CHR ''/'' # Join ss ''/''"
proof (cases "ss = []")
  case True
  from assms have "CHR ''/'' \<notin> set s" and "s \<noteq> []" by simp_all
  with True show ?thesis by (simp add: backtrack_first_segment)
next
  case False
  from assms have s: "CHR ''/'' \<notin> set s" by simp
  have "backtrack ((CHR ''/'' # Join ss ''/'') @ CHR ''/'' # s) (Suc 0)
          (length (CHR ''/'' # Join ss ''/'') + length s) = length (CHR ''/'' # Join ss ''/'')"
    by (rule backtrack_later_segment [OF s]) simp
  with False show ?thesis by (simp add: Join_snoc)
qed

lemma element_at_Elem:
  assumes "element_at c rest = Elem"
  shows "c \<noteq> CHR ''/''" and "c # takeWhile (\<lambda>x. x \<noteq> CHR ''/'') rest \<noteq> ''..''"
proof -
  show "c \<noteq> CHR ''/''" using assms by (auto simp: element_at_def split: if_splits)
  show "c # takeWhile (\<lambda>x. x \<noteq> CHR ''/'') rest \<noteq> ''..''"
  proof
    assume eq: "c # takeWhile (\<lambda>x. x \<noteq> CHR ''/'') rest = ''..''"
    then have c: "c = CHR ''.''" and t: "takeWhile (\<lambda>x. x \<noteq> CHR ''/'') rest = ''.''" by auto
    from t obtain r where rest: "rest = CHR ''.'' # r"
      by (cases rest) (auto split: if_splits)
    with t have "takeWhile (\<lambda>x. x \<noteq> CHR ''/'') r = []" by simp
    then have "r = [] \<or> hd r = CHR ''/''" by (cases r) (auto split: if_splits)
    with c rest have "element_at c rest = DotDot"
      by (cases r) (auto simp: element_at_def)
    with assms show False by simp
  qed
qed

lemma element_at_DotDot: "element_at c rest = DotDot \<Longrightarrow> length (tl rest) < length rest"
  by (cases rest) (auto simp: element_at_def split: if_splits)

lemma clean_loop_rooted:
  "segs_ok segs \<Longrightarrow>
     \<exists>segs'. segs_ok segs' \<and>
       clean_loop True path (CHR ''/'' # Join segs ''/'') (Suc 0) = CHR ''/'' # Join segs' ''/''"
proof (induction "length path" arbitrary: path segs rule: less_induct)
  case less
  show ?case
  proof (cases path)
    case Nil
    with less.prems show ?thesis by auto
  next
    case (Cons c rest)
    show ?thesis
    proof (cases "element_at c rest")
      case Slash
      with Cons less.hyps [of rest segs] less.prems show ?thesis by simp
    next
      case Dot
      with Cons less.hyps [of rest segs] less.prems show ?thesis by simp
    next
      case DotDot
      have shorter: "length (tl rest) < length path"
        using element_at_DotDot [OF DotDot] Cons by simp
      show ?thesis
      proof (cases segs rule: rev_cases)
        case Nil
        with Cons DotDot less.hyps [OF shorter, of "[]"] show ?thesis by simp
      next
        case (snoc ss s)
        with less.prems have ok: "segs_ok (ss @ [s])" and ss: "segs_ok ss" by simp_all
        from ok have "Join (ss @ [s]) ''/'' \<noteq> []" by (simp add: Join_eq_Nil)
        then have long: "Suc 0 < length (CHR ''/'' # Join (ss @ [s]) ''/'')" by (cases "Join (ss @ [s]) ''/''") auto
        from less.hyps [OF shorter ss] obtain segs' where
          "segs_ok segs'" "clean_loop True (tl rest) (CHR ''/'' # Join ss ''/'') (Suc 0) = CHR ''/'' # Join segs' ''/''"
          by blast
        with Cons DotDot snoc long backtrack_last_segment [OF ok] show ?thesis
          by (intro exI [of _ segs']) (simp del: Join.simps length_Cons list.size)
      qed
    next
      case Elem
      let ?s = "c # takeWhile (\<lambda>x. x \<noteq> CHR ''/'') rest"
      have s_ok: "segs_ok (segs @ [?s])"
        using less.prems element_at_Elem [OF Elem] by (auto dest: set_takeWhileD)
      have shorter: "length (dropWhile (\<lambda>x. x \<noteq> CHR ''/'') rest) < length path"
        using Cons length_dropWhile_le [of "\<lambda>x. x \<noteq> CHR ''/''" rest] by simp
      have out: "(if length (CHR ''/'' # Join segs ''/'') = 1 then CHR ''/'' # Join segs ''/''
                  else (CHR ''/'' # Join segs ''/'') @ ''/'') @ ?s
                 = CHR ''/'' # Join (segs @ [?s]) ''/''"
      proof (cases "segs = []")
        case True
        then show ?thesis by simp
      next
        case False
        with less.prems have "Join segs ''/'' \<noteq> []" by (simp add: Join_eq_Nil)
        with False show ?thesis by (simp add: Join_snoc)
      qed
      from less.hyps [OF shorter s_ok] obtain segs' where
        "segs_ok segs'"
        "clean_loop True (dropWhile (\<lambda>x. x \<noteq> CHR ''/'') rest) (CHR ''/'' # Join (segs @ [?s]) ''/'') (Suc 0)
           = CHR ''/'' # Join segs' ''/''"
        by blast
      with Cons Elem out show ?thesis
        by (intro exI [of _ segs']) (simp del: Join.simps length_Cons list.size)
    qed
  qed
qed

lemma Split_no_sep: "c \<notin> set s \<Longrightarrow> Split s c = [s]"
  by (induction s) auto

lemma Split_append_sep: "c \<notin> set s \<Longrightarrow> Split (s @ c # t) c = s # Split t c"
  by (induction s) auto

lemma Split_Join:
  "segs_ok segs \<Longrightarrow> segs \<noteq> [] \<Longrightarrow> Split (Join segs ''/'') CHR ''/'' = segs"
proof (induction segs "''/''" rule: Join.induct)
  case 1
  then show ?case by simp
next
  case (2 e)
  then show ?case by (simp add: segs_ok_def Split_no_sep)
next
  case (3 e v va)
  then show ?case by (simp add: segs_ok_def Split_append_sep)
qed

lemma Clean_rooted:
  assumes "path \<noteq> []" and "hd path = CHR ''/''"
  shows "\<exists>segs. segs_ok segs \<and> Clean path = CHR ''/'' # Join segs ''/''"
proof -
  from clean_loop_rooted [of "[]" "tl path"] obtain segs where
    "segs_ok segs" "clean_loop True (tl path) ''/'' (Suc 0) = CHR ''/'' # Join segs ''/''"
    by auto
  with assms show ?thesis by (auto simp: Clean_def Let_def)
qed

lemma Clean_within_root:
  assumes "path \<noteq> []" and "hd path = CHR ''/''"
  shows "within_root root (root @ Clean path)"
proof -
  from Clean_rooted [OF assms] obtain segs where
    ok: "segs_ok segs" and eq: "Clean path = CHR ''/'' # Join segs ''/''" by blast
  have "''..'' \<notin> set (Split (Join segs ''/'') CHR ''/'')"
  proof (cases "segs = []")
    case True
    then show ?thesis by simp
  next
    case False
    with ok have "Split (Join segs ''/'') CHR ''/'' = segs" by (rule_tac Split_Join)
    with ok show ?thesis by (auto simp: segs_ok_def list_all_iff)
  qed
  with eq show ?thesis by (simp add: within_root_def)
qed

lemma cleanPath_rooted: "\<exists>cs. cleanPath p = CHR ''/'' # cs"
proof (cases "p = []")
  case True
  then show ?thesis by (simp add: cleanPath_def)
next
  case False
  define p1 where "p1 = (if hd p \<noteq> CHR ''/'' then CHR ''/'' # p else p)"
  from False have p1: "p1 \<noteq> []" "hd p1 = CHR ''/''" by (auto simp: p1_def)
  from Clean_rooted [OF p1] obtain segs where np: "Clean p1 = CHR ''/'' # Join segs ''/''" by blast
  from p1 obtain t where "p1 = CHR ''/'' # t" by (cases p1) auto
  with False np show ?thesis
    unfolding cleanPath_def Let_def p1_def [symmetric] by auto
qed

lemma handed_on_rooted:
  assumes "handed_on req"
  shows "URL_Path req \<noteq> [] \<and> hd (URL_Path req) = CHR ''/''"
proof (cases "Method req = ''CONNECT''")
  case True
  with assms show ?thesis by (auto simp: handed_on_def split: list.splits)
next
  case False
  with assms have "cleanPath (URL_Path req) = URL_Path req" by (simp add: handed_on_def)
  with cleanPath_rooted [of "URL_Path req"] show ?thesis by auto
qed

subsection \<open>Dispatch by method\<close>

text \<open>
  C9. A request whose method is neither GET nor POST reaches no handler: \<open>ServeHTTP\<close>
  returns with the state it was given, so nothing is written to the response (the
  transport then answers with its default empty 200), no access-log entry is made and
  the files are unchanged.
\<close>

theorem ServeHTTP_other_method:
  "Method req \<noteq> ''GET'' \<Longrightarrow> Method req \<noteq> ''POST'' \<Longrightarrow> ServeHTTP fs P req st = (Returned, st)"
  by (simp add: ServeHTTP_def dispatch_def deferred_recover_def)

theorem ServeHTTP_other_method_witness:
  "ServeHTTP example_fs example_platform ((example_get ''/docs/'')\<lparr>Method := ''DELETE''\<rparr>) example_state
     = (Returned, example_state)"
  using ServeHTTP_other_method
          [of "(example_get ''/docs/'')\<lparr>Method := ''DELETE''\<rparr>" example_fs example_platform example_state]
  by (simp add: example_get_def)

subsection \<open>The authentication wrapper\<close>




lemma Start_handed_on:
  assumes "handed_on req"
  shows "Start fs P req st =
           (if BasicAuth fs \<noteq> [] then basicAuth fs P req st else ServeHTTP fs P req st)"
proof -
  from handed_on_rooted [OF assms] obtain cs where "URL_Path req = CHR ''/'' # cs"
    by (cases "URL_Path req") auto
  with assms show ?thesis
    by (auto simp add: Start_def serverHandler_def ServeMux_def mux_handler_def handed_on_def
        authRouter_def router_def split: if_splits)
qed




subsection \<open>Failures of the open in a GET\<close>

text \<open>
  C4. A GET (other than the favicon request) whose open fails because the path does
  not exist makes the access-log entry with status 404, logs the diagnostic message
  and executes the 404 template; when the open fails for lack of permission the same
  happens with status 500 and the 500 template. In both cases these are the last
  events of the request and \<open>ServeHTTP\<close> returns.
\<close>

theorem handler_open_failure:
  assumes "Method req = ''GET''" and "URL_Path req \<noteq> ''/favicon.ico''"
  shows "(os_Open P (Webroot fs @ Clean (URL_Path req)) = Inl ErrNotExist \<longrightarrow>
            ServeHTTP fs P req st =
              (Returned, st\<lparr>trace := trace st @
                 [OsOpen (Webroot fs @ Clean (URL_Path req)),
                  LogRequest (RemoteAddr req) (Method req) (URL_Path req) (Proto req) ''404'',
                  LogMessage ''404:   File not found'', Execute ''404'' None]\<rparr>))
       \<and> (os_Open P (Webroot fs @ Clean (URL_Path req)) = Inl ErrPermission \<longrightarrow>
            ServeHTTP fs P req st =
              (Returned, st\<lparr>trace := trace st @
                 [OsOpen (Webroot fs @ Clean (URL_Path req)),
                  LogRequest (RemoteAddr req) (Method req) (URL_Path req) (Proto req) ''500'',
                  LogMessage ''500:   No permission to access the file'', Execute ''500'' None]\<rparr>))"
  using assms
  by (simp add: ServeHTTP_def dispatch_def deferred_recover_def handler_def Let_def
      handle404_trace handle500_trace emit_def)

theorem handler_open_failure_witness:
  "ServeHTTP example_fs example_platform (example_get ''/missing/file.txt'') example_state =
     (Returned, example_state\<lparr>trace :=
        [OsOpen ''/srv/www/missing/file.txt'',
         LogRequest ''10.0.0.7:4711'' ''GET'' ''/missing/file.txt'' ''HTTP/1.1'' ''404'',
         LogMessage ''404:   File not found'', Execute ''404'' None]\<rparr>)
   \<and> ServeHTTP example_fs example_platform (example_get ''/locked'') example_state =
     (Returned, example_state\<lparr>trace :=
        [OsOpen ''/srv/www/locked'',
         LogRequest ''10.0.0.7:4711'' ''GET'' ''/locked'' ''HTTP/1.1'' ''500'',
         LogMessage ''500:   No permission to access the file'', Execute ''500'' None]\<rparr>)"
  using handler_open_failure [of "example_get ''/missing/file.txt''" example_platform example_fs example_state]
        handler_open_failure [of "example_get ''/locked''" example_platform example_fs example_state]
  by (simp add: example_get_def example_fs_def example_platform_def example_state_def
      Clean_missing Clean_locked example_open_missing example_open_locked)

subsection \<open>Recovery at the request boundary\<close>

text \<open>
  C8. \<open>ServeHTTP\<close> always returns. When the handler it dispatched to panics with a
  value, the deferred recover answers with \<open>http.Error\<close> of that value and status 500,
  on the state the handler had reached (nothing is rolled back). At that point the
  handlers have written nothing to the response and no file, so the 500 is the
  response.
\<close>

theorem ServeHTTP_recovers:
  "fst (ServeHTTP fs P req st) = Returned
   \<and> (dispatch fs P req st = (Panicked err, st') \<longrightarrow>
        ServeHTTP fs P req st = (Returned, st'\<lparr>trace := trace st' @ [HttpError err 500]\<rparr>)
        \<and> files st' = files st
        \<and> filter response_event (trace st') = filter response_event (trace st))"
proof -
  have "fst (ServeHTTP fs P req st) = Returned"
    by (simp add: ServeHTTP_def deferred_recover_def split: prod.splits ending.splits)
  moreover have "ServeHTTP fs P req st = (Returned, st'\<lparr>trace := trace st' @ [HttpError err 500]\<rparr>)"
    if "dispatch fs P req st = (Panicked err, st')"
    using that by (simp add: ServeHTTP_def deferred_recover_def emit_def)
  moreover have "files st' = files st \<and> filter response_event (trace st') = filter response_event (trace st)"
    if "dispatch fs P req st = (Panicked err, st')"
    using that
    by (auto simp add: dispatch_def handler_def upload_def emit_def Let_def
        split: if_splits sum.splits os_error.splits option.splits bool.splits)
  ultimately show ?thesis by blast
qed

theorem ServeHTTP_recovers_witness:
  "ServeHTTP example_fs example_platform (example_get ''/broken'') example_state =
     (Returned, example_state\<lparr>trace :=
        [OsOpen ''/srv/www/broken'',
         LogRequest ''10.0.0.7:4711'' ''GET'' ''/broken'' ''HTTP/1.1'' ''200'',
         HttpError nil_dereference 500]\<rparr>)"
proof -
  have "dispatch example_fs example_platform (example_get ''/broken'') example_state =
          (Panicked nil_dereference, example_state\<lparr>trace :=
             [OsOpen ''/srv/www/broken'',
              LogRequest ''10.0.0.7:4711'' ''GET'' ''/broken'' ''HTTP/1.1'' ''200'']\<rparr>)"
    by (simp add: dispatch_def handler_def example_get_def example_fs_def example_platform_def
        example_state_def Clean_broken example_open_broken emit_def Let_def)
  with ServeHTTP_recovers [of example_fs example_platform "example_get ''/broken''" example_state
         nil_dereference "example_state\<lparr>trace :=
             [OsOpen ''/srv/www/broken'',
              LogRequest ''10.0.0.7:4711'' ''GET'' ''/broken'' ''HTTP/1.1'' ''200'']\<rparr>"]
  show ?thesis by simp
qed

subsection \<open>Uploads\<close>

text \<open>
  C10. A POST whose form has no part named \<open>file\<close>: \<open>FormFile\<close> returns an error and
  a nil file, the error is logged, \<open>upload\<close> panics on the nil file, and \<open>ServeHTTP\<close>
  turns the panic into a 500. No file is created or written and no redirect is sent:
  the trace holds the log line and the error response only, and the files are those
  before the request.
\<close>

theorem upload_missing_part:
  "Method req = ''POST'' \<Longrightarrow> FormFile_result req = Inl err \<Longrightarrow>
     upload fs P req st =
       (Panicked nil_dereference,
        st\<lparr>trace := trace st @ [LogPrint (''Error retrieving the file: '' @ err)]\<rparr>)
     \<and> ServeHTTP fs P req st =
       (Returned, st\<lparr>trace := trace st @ [LogPrint (''Error retrieving the file: '' @ err),
                                          HttpError nil_dereference 500]\<rparr>)"
  by (simp add: ServeHTTP_def dispatch_def deferred_recover_def upload_def emit_def)

theorem upload_missing_part_witness:
  "ServeHTTP example_fs example_platform (example_post ''/docs/'' (Inl ''http: no such file'')) example_state =
     (Returned, example_state\<lparr>trace :=
        [LogPrint ''Error retrieving the file: http: no such file'',
         HttpError nil_dereference 500]\<rparr>)"
  using upload_missing_part [of "example_post ''/docs/'' (Inl ''http: no such file'')"
          "''http: no such file''" example_fs example_platform example_state]
  by (simp add: example_post_def example_state_def)

text \<open>
  C5. With the part present, \<open>upload\<close> returns normally whatever fails. Each of the
  three steps (create, read, write) that fails logs its line and the events of
  \<open>handle500\<close> (access-log entry with status 500, diagnostic message, the 500 page),
  and the steps after it run all the same: the write is attempted after a failed create
  or read, and the access-log entry with status 200 and the redirect always come last.
  Nothing is undone: after a write that failed part way the file holds the bytes
  written so far.
\<close>

theorem upload_steps_continue:
  assumes "FormFile_result req = Inr part"
    and "target = Join (butlast (Split (URL_Path req) CHR ''/'')) ''/''"
    and "savepath = Webroot fs @ target @ ''/'' @ Filename part"
    and "fileBytes = (case read_err part of None \<Rightarrow> payload part | Some n \<Rightarrow> take n (payload part))"
    and "page500 = [LogRequest (RemoteAddr req) (Method req) (URL_Path req) (Proto req) ''500'',
                    LogMessage ''500:   No permission to access the file'', Execute ''500'' None]"
  shows "fst (upload fs P req st) = Returned
       \<and> trace (snd (upload fs P req st)) =
           trace st
           @ OsCreate savepath
             # (if os_Create_fails P savepath
                then LogPrint ''ERROR:   Not able to create file on disk'' # page500 else [])
           @ (if read_err part = None then []
              else LogPrint ''ERROR:   Not able to read file from request'' # page500)
           @ WriteFile savepath fileBytes
             # (if WriteFile_fails P savepath
                then LogPrint ''ERROR:   Not able to write file to disk'' # page500 else [])
           @ [LogRequest (RemoteAddr req) (Method req) (URL_Path req) (Proto req) ''200'',
              Redirect target 303]
       \<and> trace (handle500 req st) = trace st @ page500
       \<and> files (snd (upload fs P req st)) savepath =
           (if WriteFile_fails P savepath
            then (case WriteFile_written P savepath of
                    Some n \<Rightarrow> Some (take n fileBytes)
                  | None \<Rightarrow> (if os_Create_fails P savepath then files st savepath else Some []))
            else Some fileBytes)"
  using assms
  by (simp add: upload_def handle500_trace emit_def Let_def split: option.splits)

theorem upload_steps_continue_witness:
  "fst (upload example_fs example_platform (example_post ''/locked/'' (Inr example_part)) example_state)
     = Returned
   \<and> trace (snd (upload example_fs example_platform (example_post ''/locked/'' (Inr example_part))
                  example_state)) =
       [OsCreate ''/srv/www/locked/report.txt'',
        LogPrint ''ERROR:   Not able to create file on disk'',
        LogRequest ''10.0.0.7:4711'' ''POST'' ''/locked/'' ''HTTP/1.1'' ''500'',
        LogMessage ''500:   No permission to access the file'', Execute ''500'' None,
        WriteFile ''/srv/www/locked/report.txt'' ''quarterly figures'',
        LogRequest ''10.0.0.7:4711'' ''POST'' ''/locked/'' ''HTTP/1.1'' ''200'',
        Redirect ''/locked'' 303]
   \<and> files (snd (upload example_fs example_platform (example_post ''/locked/'' (Inr example_part))
                  example_state)) ''/srv/www/locked/report.txt'' = Some ''quarterly figures''
   \<and> trace (snd (upload example_fs
                  (example_platform\<lparr>WriteFile_fails := (\<lambda>p. True), WriteFile_written := (\<lambda>p. Some 10)\<rparr>)
                  (example_post ''/docs/'' (Inr example_part)) example_state)) =
       [OsCreate ''/srv/www/docs/report.txt'',
        WriteFile ''/srv/www/docs/report.txt'' ''quarterly figures'',
        LogPrint ''ERROR:   Not able to write file to disk'',
        LogRequest ''10.0.0.7:4711'' ''POST'' ''/docs/'' ''HTTP/1.1'' ''500'',
        LogMessage ''500:   No permission to access the file'', Execute ''500'' None,
        LogRequest ''10.0.0.7:4711'' ''POST'' ''/docs/'' ''HTTP/1.1'' ''200'',
        Redirect ''/docs'' 303]
   \<and> files (snd (upload example_fs
                  (example_platform\<lparr>WriteFile_fails := (\<lambda>p. True), WriteFile_written := (\<lambda>p. Some 10)\<rparr>)
                  (example_post ''/docs/'' (Inr example_part)) example_state))
         ''/srv/www/docs/report.txt'' = Some ''quarterly ''"
proof -
  have req: "FormFile_result (example_post upath (Inr example_part)) = Inr example_part"
    "URL_Path (example_post upath (Inr example_part)) = upath"
    "RemoteAddr (example_post upath (Inr example_part)) = ''10.0.0.7:4711''"
    "Method (example_post upath (Inr example_part)) = ''POST''"
    "Proto (example_post upath (Inr example_part)) = ''HTTP/1.1''" for upath
    by (simp_all add: example_post_def)
  have part: "Filename example_part = ''report.txt''" "read_err example_part = None"
    "payload example_part = ''quarterly figures''"
    by (simp_all add: example_part_def)
  have env: "Webroot example_fs = ''/srv/www''"
    "os_Create_fails example_platform ''/srv/www/locked/report.txt''"
    "\<not> WriteFile_fails example_platform ''/srv/www/locked/report.txt''"
    "trace example_state = []"
    by (simp_all add: example_fs_def example_platform_def example_state_def)
  have env2:
    "\<not> os_Create_fails (example_platform\<lparr>WriteFile_fails := (\<lambda>p. True), WriteFile_written := (\<lambda>p. Some 10)\<rparr>)
         ''/srv/www/docs/report.txt''"
    "WriteFile_fails (example_platform\<lparr>WriteFile_fails := (\<lambda>p. True), WriteFile_written := (\<lambda>p. Some 10)\<rparr>)
         ''/srv/www/docs/report.txt''"
    "WriteFile_written (example_platform\<lparr>WriteFile_fails := (\<lambda>p. True), WriteFile_written := (\<lambda>p. Some 10)\<rparr>)
         ''/srv/www/docs/report.txt'' = Some 10"
    by (simp_all add: example_platform_def)
  have cut: "take 10 ''quarterly figures'' = ''quarterly ''"
    by code_simp
  have first: "fst (upload example_fs example_platform (example_post ''/locked/'' (Inr example_part)) example_state)
     = Returned
   \<and> trace (snd (upload example_fs example_platform (example_post ''/locked/'' (Inr example_part))
                  example_state)) =
       [OsCreate ''/srv/www/locked/report.txt'',
        LogPrint ''ERROR:   Not able to create file on disk'',
        LogRequest ''10.0.0.7:4711'' ''POST'' ''/locked/'' ''HTTP/1.1'' ''500'',
        LogMessage ''500:   No permission to access the file'', Execute ''500'' None,
        WriteFile ''/srv/www/locked/report.txt'' ''quarterly figures'',
        LogRequest ''10.0.0.7:4711'' ''POST'' ''/locked/'' ''HTTP/1.1'' ''200'',
        Redirect ''/locked'' 303]
   \<and> files (snd (upload example_fs example_platform (example_post ''/locked/'' (Inr example_part))
                  example_state)) ''/srv/www/locked/report.txt'' = Some ''quarterly figures''"
    using upload_steps_continue [of "example_post ''/locked/'' (Inr example_part)" example_part
         "''/locked''" "''/srv/www/locked/report.txt''" example_fs "''quarterly figures''"
         "[LogRequest ''10.0.0.7:4711'' ''POST'' ''/locked/'' ''HTTP/1.1'' ''500'',
           LogMessage ''500:   No permission to access the file'', Execute ''500'' None]"
         example_platform example_state]
    by (simp only: req part env target_locked append.simps option.case if_True if_False
        simp_thms list.inject event.inject refl)
  have second: "trace (snd (upload example_fs
                  (example_platform\<lparr>WriteFile_fails := (\<lambda>p. True), WriteFile_written := (\<lambda>p. Some 10)\<rparr>)
                  (example_post ''/docs/'' (Inr example_part)) example_state)) =
       [OsCreate ''/srv/www/docs/report.txt'',
        WriteFile ''/srv/www/docs/report.txt'' ''quarterly figures'',
        LogPrint ''ERROR:   Not able to write file to disk'',
        LogRequest ''10.0.0.7:4711'' ''POST'' ''/docs/'' ''HTTP/1.1'' ''500'',
        LogMessage ''500:   No permission to access the file'', Execute ''500'' None,
        LogRequest ''10.0.0.7:4711'' ''POST'' ''/docs/'' ''HTTP/1.1'' ''200'',
        Redirect ''/docs'' 303]
   \<and> files (snd (upload example_fs
                  (example_platform\<lparr>WriteFile_fails := (\<lambda>p. True), WriteFile_written := (\<lambda>p. Some 10)\<rparr>)
                  (example_post ''/docs/'' (Inr example_part)) example_state))
         ''/srv/www/docs/report.txt'' = Some ''quarterly ''"
    using upload_steps_continue [of "example_post ''/docs/'' (Inr example_part)" example_part
         "''/docs''" "''/srv/www/docs/report.txt''" example_fs "''quarterly figures''"
         "[LogRequest ''10.0.0.7:4711'' ''POST'' ''/docs/'' ''HTTP/1.1'' ''500'',
           LogMessage ''500:   No permission to access the file'', Execute ''500'' None]"
         "example_platform\<lparr>WriteFile_fails := (\<lambda>p. True), WriteFile_written := (\<lambda>p. Some 10)\<rparr>"
         example_state]
    by (simp only: req part env env2 cut target_docs append.simps option.case if_True if_False
        simp_thms list.inject event.inject refl)
  from first second show ?thesis by (simp only: simp_thms)
qed

text \<open>
  C6. A POST with the part present and no failing step. The file is created and written
  at \<open>Webroot\<close>, then the target, then a slash, then the part's file name, where the
  target is the request path without its last slash and what follows it. After the
  request the file at that path holds exactly the bytes of the part, whatever was there
  before; no other file changes, nothing is reported, and the one thing written to the
  response is the redirect to the target with status 303. Posting \<open>report.txt\<close> to
  \<open>/docs/\<close> writes \<open>/docs/report.txt\<close> under the root and redirects to \<open>/docs\<close>.
\<close>

theorem upload_success:
  assumes "Method req = ''POST''" and "FormFile_result req = Inr part"
    and "target = Join (butlast (Split (URL_Path req) CHR ''/'')) ''/''"
    and "savepath = Webroot fs @ target @ ''/'' @ Filename part"
    and "\<not> os_Create_fails P savepath" and "read_err part = None" and "\<not> WriteFile_fails P savepath"
  shows "ServeHTTP fs P req st =
           (Returned,
            \<lparr>files = (files st)(savepath \<mapsto> payload part),
             trace = trace st @
               [OsCreate savepath, WriteFile savepath (payload part),
                LogRequest (RemoteAddr req) (Method req) (URL_Path req) (Proto req) ''200'',
                Redirect target 303]\<rparr>)
       \<and> (CHR ''/'' \<in> set (URL_Path req) \<longrightarrow>
            URL_Path req = target @ ''/'' @ last (Split (URL_Path req) CHR ''/'')
            \<and> CHR ''/'' \<notin> set (last (Split (URL_Path req) CHR ''/'')))"
  using assms strip_last_segment [of "CHR ''/''" "URL_Path req"] last_Split [of "CHR ''/''" "URL_Path req"]
  by (simp add: ServeHTTP_def dispatch_def deferred_recover_def upload_def emit_def Let_def)



theorem upload_success_witness:
  "ServeHTTP example_fs example_platform (example_post ''/docs/'' (Inr example_part)) example_state =
     (Returned,
      \<lparr>files = [''/srv/www/docs/report.txt'' \<mapsto> ''quarterly figures''],
       trace =
         [OsCreate ''/srv/www/docs/report.txt'',
          WriteFile ''/srv/www/docs/report.txt'' ''quarterly figures'',
          LogRequest ''10.0.0.7:4711'' ''POST'' ''/docs/'' ''HTTP/1.1'' ''200'',
          Redirect ''/docs'' 303]\<rparr>)
   \<and> files example_state ''/srv/www/docs/report.txt'' = Some ''old''"
  using upload_success [of "example_post ''/docs/'' (Inr example_part)" example_part "''/docs''"
          "''/srv/www/docs/report.txt''" example_fs example_platform example_state]
  by (simp add: example_post_def example_part_def example_fs_def example_platform_def
      example_state_def target_docs)


subsection \<open>Links of a directory listing\<close>












subsection \<open>The path a GET opens\<close>

lemma opened_paths_append: "opened_paths (xs @ ys) = opened_paths xs @ opened_paths ys"
  by (induction xs rule: opened_paths.induct) simp_all

lemma ServeHTTP_opened_paths:
  assumes "Method req = ''GET''"
  shows "opened_paths (trace (snd (ServeHTTP fs P req st))) =
           opened_paths (trace st) @
             (if URL_Path req = ''/favicon.ico'' then [] else [Webroot fs @ Clean (URL_Path req)])"
  using assms
  by (simp add: ServeHTTP_def dispatch_def deferred_recover_def handler_def processDir_def
      sendFile_def handle404_trace handle500_trace emit_def Let_def opened_paths_append
      split: sum.splits os_error.splits option.splits bool.splits)



lemma example_open_passwd: "example_open ''/srv/www/etc/passwd'' = Inl ErrNotExist"
  by (simp add: example_open_def)







text \<open>
  Behind the multiplexer that \<open>Start\<close> serves through, the restriction is met: a GET
  that reaches the handler has a path in canonical form, which begins with a slash, and
  every other GET is answered without opening anything. So whatever a GET makes the
  server open lies within the root.
\<close>

lemma Start_opens_within_root:
  assumes "Method req = ''GET''"
  shows "\<exists>ps. opened_paths (trace (snd (Start fs P req st))) = opened_paths (trace st) @ ps
              \<and> list_all (within_root (Webroot fs)) ps"
proof (cases "handed_on req")
  case True
  from handed_on_rooted [OF True]
  have inside: "within_root (Webroot fs) (Webroot fs @ Clean (URL_Path req))"
    by (simp add: Clean_within_root)
  let ?ps = "if URL_Path req = ''/favicon.ico'' then [] else [Webroot fs @ Clean (URL_Path req)]"
  have ps: "list_all (within_root (Webroot fs)) ?ps" using inside by simp
  have direct: "opened_paths (trace (snd (ServeHTTP fs P req s))) = opened_paths (trace s) @ ?ps" for s
    by (rule ServeHTTP_opened_paths [OF assms])
  show ?thesis
  proof (cases "BasicAuth fs \<noteq> [] \<and>
      (BasicAuth_result req = None \<or>
       (\<exists>u p. BasicAuth_result req = Some (u, p) \<and> (u \<noteq> ''gopher'' \<or> p \<noteq> BasicAuth fs)))")
    case True
    with Start_handed_on [OF \<open>handed_on req\<close>, of fs P st]
    have "opened_paths (trace (snd (Start fs P req st))) = opened_paths (trace st) @ []"
      by (auto simp add: basicAuth_def emit_def Let_def opened_paths_append)
    then show ?thesis by (intro exI [of _ "[]"]) simp
  next
    case False
    with Start_handed_on [OF \<open>handed_on req\<close>, of fs P st]
    have "Start fs P req st = ServeHTTP fs P req st
        \<or> Start fs P req st =
            ServeHTTP fs P req (st\<lparr>trace := trace st @ [HeaderSet ''WWW-Authenticate'' challenge]\<rparr>)"
      by (auto simp add: basicAuth_def emit_def Let_def split: option.splits)
    then have "opened_paths (trace (snd (Start fs P req st))) = opened_paths (trace st) @ ?ps"
      using direct [of st]
            direct [of "st\<lparr>trace := trace st @ [HeaderSet ''WWW-Authenticate'' challenge]\<rparr>"]
      by (auto simp add: opened_paths_append)
    with ps show ?thesis by blast
  qed
next
  case False
  with assms have "opened_paths (trace (snd (Start fs P req st))) = opened_paths (trace st) @ []"
    by (auto simp add: Start_def serverHandler_def ServeMux_def mux_handler_def handed_on_def
        emit_def opened_paths_append split: if_splits list.splits)
  then show ?thesis by (intro exI [of _ "[]"]) simp
qed


subsection \<open>The order of a directory listing\<close>

lemma filter_key_single:
  "distinct (map f xs) \<Longrightarrow> k \<in> set xs \<Longrightarrow> filter (\<lambda>x. f k = f x) xs = [k]"
proof (induction xs)
  case Nil
  then show ?case by simp
next
  case (Cons a xs)
  show ?case
  proof (cases "k = a")
    case True
    from Cons.prems have "f a \<notin> f ` set xs" by simp
    then have "filter (\<lambda>x. f a = f x) xs = []" by (auto simp: filter_empty_conv)
    with True show ?thesis by simp
  next
    case False
    with Cons.prems have k: "k \<in> set xs" by simp
    from Cons.prems have "f a \<notin> f ` set xs" by simp
    with k have "f k \<noteq> f a" by (metis imageI)
    with Cons k show ?thesis by simp
  qed
qed

lemma sorted_perm_unique:
  fixes f :: "'a \<Rightarrow> 'k::linorder"
  assumes "mset ys = mset xs" and "sorted (map f ys)" and "distinct (map f xs)"
  shows "ys = sort_key f xs"
proof -
  from assms(1) have "mset (map f ys) = mset (map f xs)" by simp
  with assms(3) have dys: "distinct (map f ys)" by (metis mset_eq_imp_distinct_iff)
  from assms(1) have sets: "set ys = set xs" by (rule mset_eq_setD)
  have "sort_key f xs = ys"
  proof (rule properties_for_sort_key [OF assms(1) _ assms(2)])
    fix k assume "k \<in> set ys"
    with sets dys assms(3)
    show "filter (\<lambda>x. f k = f x) ys = filter (\<lambda>x. f k = f x) xs"
      by (simp add: filter_key_single)
  qed
  then show ?thesis by simp
qed

lemma sort_Slice_post_sorted:
  assumes "sort_Slice_post (less_lower P) xs ys"
  shows "sorted (map (\<lambda>it. strings_ToLower P (Name it)) ys)" and "mset ys = mset xs"
proof -
  from assms
  have "sorted_wrt (\<lambda>a b. \<not> strings_ToLower P (Name b) < strings_ToLower P (Name a)) ys"
    by (simp add: sort_Slice_post_def less_lower_def)
  then have "sorted_wrt (\<lambda>a b. strings_ToLower P (Name a) \<le> strings_ToLower P (Name b)) ys"
    by (rule sorted_wrt_mono_rel [rotated]) auto
  then show "sorted (map (\<lambda>it. strings_ToLower P (Name it)) ys)" by (simp add: sorted_map)
  from assms show "mset ys = mset xs" by (simp add: sort_Slice_post_def)
qed

text \<open>
  C2, as the code has it. \<open>processDir\<close> renders the items in the order \<open>sort.Slice\<close>
  leaves them in. Whatever function \<open>strings.ToLower\<close> is, whenever \<open>sort.Slice\<close>
  keeps its promise the rendered sequence is a permutation of the items built from the
  entries and ascends in the lower-cased display name, compared as Go compares strings
  (so \<open>Banana\<close> and \<open>apple\<close> are rendered as \<open>apple\<close>, \<open>Banana\<close>); when no two
  lower-cased names are equal this fixes the sequence. The order among entries whose
  lower-cased names are equal is not fixed: \<open>sort.Slice\<close> is not a stable sort.
\<close>

theorem processDir_listing_sorted:
  assumes "Readdir file = Some fis"
    and "sort_Slice_post (less_lower P) (range_fis relpath fis [])
           (sort_Slice P (less_lower P) (range_fis relpath fis []))"
  shows "processDir P req file relpath st =
           emit (Execute ''display''
                  (Some \<lparr>Path = relpath,
                         Content = sort_Slice P (less_lower P) (range_fis relpath fis [])\<rparr>)) st
       \<and> sorted (map (\<lambda>it. strings_ToLower P (Name it))
                   (sort_Slice P (less_lower P) (range_fis relpath fis [])))
       \<and> mset (sort_Slice P (less_lower P) (range_fis relpath fis [])) = mset (range_fis relpath fis [])
       \<and> (distinct (map (\<lambda>it. strings_ToLower P (Name it)) (range_fis relpath fis [])) \<longrightarrow>
            sort_Slice P (less_lower P) (range_fis relpath fis [])
              = sort_key (\<lambda>it. strings_ToLower P (Name it)) (range_fis relpath fis []))"
  using assms(1) sort_Slice_post_sorted [OF assms(2)]
  by (auto simp add: processDir_def Let_def intro: sorted_perm_unique)

lemma fruit_items:
  "range_fis ''/fruit'' [\<lparr>fi_Name = ''Banana'', fi_IsDir = False\<rparr>, \<lparr>fi_Name = ''apple'', fi_IsDir = False\<rparr>] []
     = [\<lparr>URI = ''%2Ffruit%2FBanana'', Name = ''Banana''\<rparr>, \<lparr>URI = ''%2Ffruit%2Fapple'', Name = ''apple''\<rparr>]"
  by code_simp

lemma fruit_sorted:
  "gap_insertion_sort (less_lower example_platform)
     [\<lparr>URI = ''%2Ffruit%2FBanana'', Name = ''Banana''\<rparr>, \<lparr>URI = ''%2Ffruit%2Fapple'', Name = ''apple''\<rparr>]
     = [\<lparr>URI = ''%2Ffruit%2Fapple'', Name = ''apple''\<rparr>, \<lparr>URI = ''%2Ffruit%2FBanana'', Name = ''Banana''\<rparr>]"
  by code_simp

lemma fruit_post:
  "sort_Slice_post (less_lower example_platform)
     [\<lparr>URI = ''%2Ffruit%2FBanana'', Name = ''Banana''\<rparr>, \<lparr>URI = ''%2Ffruit%2Fapple'', Name = ''apple''\<rparr>]
     [\<lparr>URI = ''%2Ffruit%2Fapple'', Name = ''apple''\<rparr>, \<lparr>URI = ''%2Ffruit%2FBanana'', Name = ''Banana''\<rparr>]"
proof -
  have "\<not> less_lower example_platform \<lparr>URI = ''%2Ffruit%2FBanana'', Name = ''Banana''\<rparr> \<lparr>URI = ''%2Ffruit%2Fapple'', Name = ''apple''\<rparr>"
    by code_simp
  then show ?thesis by (simp add: sort_Slice_post_def)
qed

theorem processDir_listing_sorted_witness:
  "processDir example_platform (example_get ''/fruit'') example_dir ''/fruit'' example_state =
     emit (Execute ''display''
            (Some \<lparr>Path = ''/fruit'',
                   Content = [\<lparr>URI = ''%2Ffruit%2Fapple'', Name = ''apple''\<rparr>,
                              \<lparr>URI = ''%2Ffruit%2FBanana'', Name = ''Banana''\<rparr>]\<rparr>)) example_state"
proof -
  have readdir: "Readdir example_dir =
      Some [\<lparr>fi_Name = ''Banana'', fi_IsDir = False\<rparr>, \<lparr>fi_Name = ''apple'', fi_IsDir = False\<rparr>]"
    by (simp add: example_dir_def)
  have sorter: "sort_Slice example_platform = gap_insertion_sort"
    by (simp add: example_platform_def)
  have post: "sort_Slice_post (less_lower example_platform)
      (range_fis ''/fruit'' [\<lparr>fi_Name = ''Banana'', fi_IsDir = False\<rparr>, \<lparr>fi_Name = ''apple'', fi_IsDir = False\<rparr>] [])
      (sort_Slice example_platform (less_lower example_platform)
        (range_fis ''/fruit'' [\<lparr>fi_Name = ''Banana'', fi_IsDir = False\<rparr>, \<lparr>fi_Name = ''apple'', fi_IsDir = False\<rparr>] []))"
    by (simp only: sorter fruit_items fruit_sorted fruit_post)
  from processDir_listing_sorted [OF readdir post, of "example_get ''/fruit''" example_state]
  show ?thesis by (simp only: sorter fruit_items fruit_sorted)
qed

lemma cx_items:
  "range_fis ''/'' cx_fis [] =
     [\<lparr>URI = ''%2Fb'', Name = ''b''\<rparr>, \<lparr>URI = ''%2Fc'', Name = ''c''\<rparr>,
      \<lparr>URI = ''%2Fd'', Name = ''d''\<rparr>, \<lparr>URI = ''%2FB'', Name = ''B''\<rparr>,
      \<lparr>URI = ''%2Fe'', Name = ''e''\<rparr>, \<lparr>URI = ''%2Ff'', Name = ''f''\<rparr>,
      \<lparr>URI = ''%2Fa'', Name = ''a''\<rparr>]"
  by code_simp

lemma cx_sorted:
  "gap_insertion_sort (less_lower example_platform)
     [\<lparr>URI = ''%2Fb'', Name = ''b''\<rparr>, \<lparr>URI = ''%2Fc'', Name = ''c''\<rparr>,
      \<lparr>URI = ''%2Fd'', Name = ''d''\<rparr>, \<lparr>URI = ''%2FB'', Name = ''B''\<rparr>,
      \<lparr>URI = ''%2Fe'', Name = ''e''\<rparr>, \<lparr>URI = ''%2Ff'', Name = ''f''\<rparr>,
      \<lparr>URI = ''%2Fa'', Name = ''a''\<rparr>]
   = [\<lparr>URI = ''%2Fa'', Name = ''a''\<rparr>, \<lparr>URI = ''%2FB'', Name = ''B''\<rparr>,
      \<lparr>URI = ''%2Fb'', Name = ''b''\<rparr>, \<lparr>URI = ''%2Fc'', Name = ''c''\<rparr>,
      \<lparr>URI = ''%2Fd'', Name = ''d''\<rparr>, \<lparr>URI = ''%2Fe'', Name = ''e''\<rparr>,
      \<lparr>URI = ''%2Ff'', Name = ''f''\<rparr>]"
  by code_simp

lemma cx_post:
  "sort_Slice_post (less_lower example_platform)
     [\<lparr>URI = ''%2Fb'', Name = ''b''\<rparr>, \<lparr>URI = ''%2Fc'', Name = ''c''\<rparr>,
      \<lparr>URI = ''%2Fd'', Name = ''d''\<rparr>, \<lparr>URI = ''%2FB'', Name = ''B''\<rparr>,
      \<lparr>URI = ''%2Fe'', Name = ''e''\<rparr>, \<lparr>URI = ''%2Ff'', Name = ''f''\<rparr>,
      \<lparr>URI = ''%2Fa'', Name = ''a''\<rparr>]
     [\<lparr>URI = ''%2Fa'', Name = ''a''\<rparr>, \<lparr>URI = ''%2FB'', Name = ''B''\<rparr>,
      \<lparr>URI = ''%2Fb'', Name = ''b''\<rparr>, \<lparr>URI = ''%2Fc'', Name = ''c''\<rparr>,
      \<lparr>URI = ''%2Fd'', Name = ''d''\<rparr>, \<lparr>URI = ''%2Fe'', Name = ''e''\<rparr>,
      \<lparr>URI = ''%2Ff'', Name = ''f''\<rparr>]"
proof -
  have "sorted_wrt (\<lambda>a b. \<not> less_lower example_platform b a)
     [\<lparr>URI = ''%2Fa'', Name = ''a''\<rparr>, \<lparr>URI = ''%2FB'', Name = ''B''\<rparr>,
      \<lparr>URI = ''%2Fb'', Name = ''b''\<rparr>, \<lparr>URI = ''%2Fc'', Name = ''c''\<rparr>,
      \<lparr>URI = ''%2Fd'', Name = ''d''\<rparr>, \<lparr>URI = ''%2Fe'', Name = ''e''\<rparr>,
      \<lparr>URI = ''%2Ff'', Name = ''f''\<rparr>]"
    by code_simp
  then show ?thesis by (simp add: sort_Slice_post_def)
qed

lemma cx_not_stable:
  "\<not> keeps_enumeration_order example_platform
     [\<lparr>URI = ''%2Fb'', Name = ''b''\<rparr>, \<lparr>URI = ''%2Fc'', Name = ''c''\<rparr>,
      \<lparr>URI = ''%2Fd'', Name = ''d''\<rparr>, \<lparr>URI = ''%2FB'', Name = ''B''\<rparr>,
      \<lparr>URI = ''%2Fe'', Name = ''e''\<rparr>, \<lparr>URI = ''%2Ff'', Name = ''f''\<rparr>,
      \<lparr>URI = ''%2Fa'', Name = ''a''\<rparr>]
     [\<lparr>URI = ''%2Fa'', Name = ''a''\<rparr>, \<lparr>URI = ''%2FB'', Name = ''B''\<rparr>,
      \<lparr>URI = ''%2Fb'', Name = ''b''\<rparr>, \<lparr>URI = ''%2Fc'', Name = ''c''\<rparr>,
      \<lparr>URI = ''%2Fd'', Name = ''d''\<rparr>, \<lparr>URI = ''%2Fe'', Name = ''e''\<rparr>,
      \<lparr>URI = ''%2Ff'', Name = ''f''\<rparr>]"
  by code_simp

text \<open>
  The claim as written asks for more: that entries with equal lower-cased names keep
  their enumeration order. In the directory \<open>b, c, d, B, e, f, a\<close> the entry \<open>b\<close> is
  enumerated before \<open>B\<close>; the sorting routine above, which keeps the promise of
  \<open>sort.Slice\<close> on this input, renders \<open>B\<close> before \<open>b\<close>.
\<close>

theorem listing_order_counterexample:
  "sort_Slice_post (less_lower example_platform) (range_fis ''/'' cx_fis [])
     (sort_Slice example_platform (less_lower example_platform) (range_fis ''/'' cx_fis []))
   \<and> processDir example_platform (example_get ''/'') cx_dir ''/'' example_state =
       emit (Execute ''display''
              (Some \<lparr>Path = ''/'',
                     Content =
                       [\<lparr>URI = ''%2Fa'', Name = ''a''\<rparr>, \<lparr>URI = ''%2FB'', Name = ''B''\<rparr>,
      \<lparr>URI = ''%2Fb'', Name = ''b''\<rparr>, \<lparr>URI = ''%2Fc'', Name = ''c''\<rparr>,
      \<lparr>URI = ''%2Fd'', Name = ''d''\<rparr>, \<lparr>URI = ''%2Fe'', Name = ''e''\<rparr>,
      \<lparr>URI = ''%2Ff'', Name = ''f''\<rparr>]\<rparr>)) example_state
   \<and> \<not> keeps_enumeration_order example_platform (range_fis ''/'' cx_fis [])
         [\<lparr>URI = ''%2Fa'', Name = ''a''\<rparr>, \<lparr>URI = ''%2FB'', Name = ''B''\<rparr>,
      \<lparr>URI = ''%2Fb'', Name = ''b''\<rparr>, \<lparr>URI = ''%2Fc'', Name = ''c''\<rparr>,
      \<lparr>URI = ''%2Fd'', Name = ''d''\<rparr>, \<lparr>URI = ''%2Fe'', Name = ''e''\<rparr>,
      \<lparr>URI = ''%2Ff'', Name = ''f''\<rparr>]"
proof -
  have sorter: "sort_Slice example_platform = gap_insertion_sort"
    by (simp add: example_platform_def)
  have readdir: "Readdir cx_dir = Some cx_fis"
    by (simp add: cx_dir_def)
  have "processDir example_platform (example_get ''/'') cx_dir ''/'' example_state =
       emit (Execute ''display''
              (Some \<lparr>Path = ''/'',
                     Content = gap_insertion_sort (less_lower example_platform)
                                 (range_fis ''/'' cx_fis [])\<rparr>)) example_state"
    by (simp add: processDir_def readdir sorter)
  then show ?thesis
    by (simp only: sorter cx_items cx_sorted cx_post cx_not_stable simp_thms)
qed

end
